theory Spec2Isabelle
  imports Main "HOL-Library.Word" "HOL-Library.Sublist"
begin

section \<open>Values exchanged with the node\<close>

text \<open>
  A Go byte slice is a list of bytes; \<^verbatim>\<open>nil\<close> and the empty slice are the
  same list. A \<^verbatim>\<open>json.RawMessage\<close> is the text of a JSON value.
\<close>

type_synonym bytes = "8 word list"

type_synonym raw = string

text \<open>
  A Go \<^verbatim>\<open>error\<close>. \<open>External m\<close> is an error made outside this file (by the RPC
  client, \<^verbatim>\<open>encoding/json\<close>, \<^verbatim>\<open>encoding/hex\<close> or the block parser) whose
  \<^verbatim>\<open>Error()\<close> text is \<open>m\<close>; \<open>New\<close> and \<open>Wrap\<close> are \<^verbatim>\<open>errors.New\<close> and
  \<^verbatim>\<open>errors.Wrap\<close> of \<^verbatim>\<open>github.com/pkg/errors\<close>.
\<close>

datatype error = External string | New string | Wrap error string

fun Error :: "error \<Rightarrow> string" where
  "Error (External m) = m"
| "Error (New m) = m"
| "Error (Wrap e m) = m @ '': '' @ Error e"

text \<open>
  A Go call either returns or panics (an index out of range is a run-time panic, not an
  \<^verbatim>\<open>error\<close> value).
\<close>

datatype 'a go = Returns 'a | Panics string

text \<open>\<^verbatim>\<open>strings.Split(s, ":")[0]\<close>: the text before the first colon, all of \<open>s\<close> when it has none.\<close>

definition Split0 :: "string \<Rightarrow> string" where
  "Split0 s = takeWhile (\<lambda>c. c \<noteq> CHR '':'') s"

text \<open>\<^verbatim>\<open>strconv.Itoa\<close>: the decimal text of an integer.\<close>

function digits10 :: "nat \<Rightarrow> string" where
  "digits10 n =
     (if n < 10 then [char_of (48 + n)]
      else digits10 (n div 10) @ [char_of (48 + n mod 10)])"
  by pat_completeness auto
termination
  by (relation "measure (\<lambda>n. n)") auto

definition Itoa :: "int \<Rightarrow> string" where
  "Itoa i = (if i < 0 then CHR ''-'' # digits10 (nat (- i)) else digits10 (nat i))"

section \<open>Compact blocks\<close>

text \<open>
  Modelled from the spec: the message types of package \<^verbatim>\<open>walletrpc\<close> are not among the
  sources. The records hold the fields the spec's data model and this file name (height,
  hash, previous hash, time, transactions; a transaction's id, outputs and actions; an
  output's ephemeral key and ciphertext; an action's nullifier, ephemeral key and
  ciphertext). Whatever else a message carries is kept as one opaque field per record,
  so that "everything else is left intact" can be stated.
\<close>

record CompactSaplingOutput =
  Epk :: bytes
  Ciphertext :: bytes
  OutputRest :: bytes

record CompactOrchardAction =
  Nullifier :: bytes
  EphemeralKey :: bytes
  ActionCiphertext :: bytes
  ActionRest :: bytes

record CompactTx =
  TxHash :: bytes
  Outputs :: "CompactSaplingOutput list"
  Actions :: "CompactOrchardAction list"
  TxRest :: bytes

record CompactBlock =
  Height :: int
  Hash :: bytes
  PrevHash :: bytes
  Time :: int
  Vtx :: "CompactTx list"
  BlockRest :: bytes

text \<open>Modelled from the spec: \<^verbatim>\<open>parser.Reverse\<close> (not among the sources) reverses a byte sequence.\<close>

definition Reverse :: "bytes \<Rightarrow> bytes" where
  "Reverse b = rev b"

section \<open>The replies of the node that this file decodes\<close>

record ZcashRpcReplyGetblock1 =
  Tx :: "string list"

record ZcashdRpcReplyGetinfo =
  Build :: string
  Subversion :: string

record Upgradeinfo =
  ActivationHeight :: int
  Status :: string

record ConsensusInfo =
  Nextblock :: string
  Chaintip :: string

record ZcashdRpcReplyGetblockchaininfo =
  Chain :: string
  Upgrades :: "string \<rightharpoonup> Upgradeinfo"
  Blocks :: int
  BestBlockHash :: string
  Consensus :: ConsensusInfo
  EstimatedHeight :: int

section \<open>What the file calls but does not define\<close>

text \<open>
  \<^verbatim>\<open>RawRequest\<close> is a global function variable (the RPC client in production, a mock in
  tests); it may keep state between calls, so it takes and returns a state \<open>'s\<close>.
  \<^verbatim>\<open>json.Unmarshal\<close> (one field per target type it is used at) and \<^verbatim>\<open>hex.DecodeString\<close>
  belong to Go's library. The block parser (\<^verbatim>\<open>parser.NewBlock\<close>, \<^verbatim>\<open>ParseFromSlice\<close>,
  \<^verbatim>\<open>GetHeight\<close>, \<^verbatim>\<open>Transactions\<close>, \<^verbatim>\<open>SetTxID\<close>, \<^verbatim>\<open>ToCompact\<close>) is a package of the
  repository that is not among the sources. All of them are parameters: every theorem below
  holds whatever they compute. \<open>'b\<close> is the parser's block; \<open>ParseFromSlice\<close> gives the
  bytes left over and the parsed block; \<open>NumTransactions b\<close> is
  \<^verbatim>\<open>len(b.Transactions())\<close>; \<open>SetTxID b i id\<close> is \<^verbatim>\<open>b.Transactions()[i].SetTxID(id)\<close>.
\<close>

record ('s, 'b) deps =
  RawRequest :: "'s \<Rightarrow> string \<Rightarrow> raw list \<Rightarrow> (error + raw) \<times> 's"
  Unmarshal_string :: "raw \<Rightarrow> error + string"
  Unmarshal_getblock1 :: "raw \<Rightarrow> error + ZcashRpcReplyGetblock1"
  Unmarshal_getinfo :: "raw \<Rightarrow> error + ZcashdRpcReplyGetinfo"
  Unmarshal_getblockchaininfo :: "raw \<Rightarrow> error + ZcashdRpcReplyGetblockchaininfo"
  DecodeString :: "string \<Rightarrow> error + bytes"
  ParseFromSlice :: "bytes \<Rightarrow> error + (bytes \<times> 'b)"
  GetHeight :: "'b \<Rightarrow> int"
  NumTransactions :: "'b \<Rightarrow> nat"
  SetTxID :: "'b \<Rightarrow> nat \<Rightarrow> bytes \<Rightarrow> 'b"
  ToCompact :: "'b \<Rightarrow> CompactBlock"

section \<open>getBlockFromRPC\<close>

text \<open>
  The loop \<^verbatim>\<open>for i, t := range block.Transactions()\<close> of lines 317 to 324, over the
  indices still to visit. \<^verbatim>\<open>block1.Tx[i]\<close> is read first: past the end of the list Go
  panics. Then the id is decoded, and a failure is returned wrapped.
\<close>

fun SetTxIDs :: "('s, 'b) deps \<Rightarrow> string list \<Rightarrow> nat list \<Rightarrow> 'b \<Rightarrow> (error + 'b) go" where
  "SetTxIDs d tx [] b = Returns (Inr b)"
| "SetTxIDs d tx (i # is) b =
     (if length tx \<le> i then Panics ''index out of range''
      else case DecodeString d (tx ! i) of
        Inl err \<Rightarrow> Returns (Inl (Wrap err ''error decoding getblock txid''))
      | Inr txid \<Rightarrow> SetTxIDs d tx is (SetTxID d b i (Reverse txid)))"

text \<open>
  The two parameters of the \<^verbatim>\<open>getblock\<close> request: the height as a JSON string (the
  \<^verbatim>\<open>json.Marshal\<close> of a Go string cannot fail, so the \<^verbatim>\<open>Log.Fatal\<close> of line 263 is
  never reached) and the verbosity.
\<close>

definition getblock_params :: "int \<Rightarrow> string \<Rightarrow> raw list" where
  "getblock_params height verbosity = (CHR 0x22 # Itoa height @ [CHR 0x22]) # [verbosity]"

text \<open>
  \<^verbatim>\<open>getBlockFromRPC\<close>, lines 259 to 328. The result is the Go pair
  \<^verbatim>\<open>(*walletrpc.CompactBlock, error)\<close>, \<open>None\<close> for \<^verbatim>\<open>nil\<close>, or a panic, together
  with the state of the RPC client after the calls made.
\<close>

definition getBlockFromRPC ::
  "('s, 'b) deps \<Rightarrow> int \<Rightarrow> 's \<Rightarrow> (CompactBlock option \<times> error option) go \<times> 's" where
  "getBlockFromRPC d height s =
     (case RawRequest d s ''getblock'' (getblock_params height ''0'') of
        (Inl rpcErr, s1) \<Rightarrow>
          if Split0 (Error rpcErr) = ''-8'' then (Returns (None, None), s1)
          else (Returns (None, Some (Wrap rpcErr ''error requesting block'')), s1)
      | (Inr result, s1) \<Rightarrow>
         (case Unmarshal_string d result of
            Inl err \<Rightarrow> (Returns (None, Some (Wrap err ''error reading JSON response'')), s1)
          | Inr blockDataHex \<Rightarrow>
         (case DecodeString d blockDataHex of
            Inl err \<Rightarrow> (Returns (None, Some (Wrap err ''error decoding getblock output'')), s1)
          | Inr blockData \<Rightarrow>
         (case ParseFromSlice d blockData of
            Inl err \<Rightarrow> (Returns (None, Some (Wrap err ''error parsing block'')), s1)
          | Inr (rest, block) \<Rightarrow>
          if length rest \<noteq> 0 then (Returns (None, Some (New ''received overlong message'')), s1)
          else if GetHeight d block \<noteq> height
            then (Returns (None, Some (New ''received unexpected height block'')), s1)
          else
         (case RawRequest d s1 ''getblock'' (getblock_params height ''1'') of
            (Inl rpcErr, s2) \<Rightarrow>
              (Returns (None, Some (Wrap rpcErr ''error requesting verbose block'')), s2)
          | (Inr result1, s2) \<Rightarrow>
         (case Unmarshal_getblock1 d result1 of
            Inl err \<Rightarrow> (Returns (None, Some err), s2)
          | Inr block1 \<Rightarrow>
         (case SetTxIDs d (Tx block1) [0 ..< NumTransactions d block] block of
            Panics m \<Rightarrow> (Panics m, s2)
          | Returns (Inl err) \<Rightarrow> (Returns (None, Some err), s2)
          | Returns (Inr block') \<Rightarrow> (Returns (Some (ToCompact d block'), None), s2))))))))"

section \<open>The block cache\<close>

text \<open>
  Modelled from the spec: type \<^verbatim>\<open>BlockCache\<close> and its methods are not among the sources.
  The window is the contiguous range of heights from \<open>firstBlock\<close>, one block per height
  in ascending order, and the flag that \<^verbatim>\<open>Sync\<close> sets.
\<close>

record BlockCache =
  firstBlock :: int
  blocks :: "CompactBlock list"
  synced :: bool

text \<open>Modelled from the spec: "fixed lower bound, read-only".\<close>

definition GetFirstHeight :: "BlockCache \<Rightarrow> int" where
  "GetFirstHeight c = firstBlock c"

text \<open>Modelled from the spec: "tail height + 1, or firstHeight if empty".\<close>

definition GetNextHeight :: "BlockCache \<Rightarrow> int" where
  "GetNextHeight c = firstBlock c + int (length (blocks c))"

text \<open>Modelled from the spec: "hash of the highest cached block, or empty if the cache is empty".\<close>

definition GetLatestHash :: "BlockCache \<Rightarrow> bytes" where
  "GetLatestHash c = (case blocks c of [] \<Rightarrow> [] | _ # _ \<Rightarrow> Hash (last (blocks c)))"

text \<open>Modelled from the spec: "true iff candidatePrevHash equals GetLatestHash()".\<close>

definition HashMatch :: "BlockCache \<Rightarrow> bytes \<Rightarrow> bool" where
  "HashMatch c prevhash = (prevhash = GetLatestHash c)"

text \<open>
  Modelled from the spec: "returns the block at height if within [firstHeight, nextHeight),
  else nil"; a read, the cache is not changed.
\<close>

definition Get :: "BlockCache \<Rightarrow> int \<Rightarrow> CompactBlock option" where
  "Get c height =
     (if GetFirstHeight c \<le> height \<and> height < GetNextHeight c
      then Some (blocks c ! nat (height - firstBlock c)) else None)"

text \<open>
  Modelled from the spec: "succeeds only if height == GetNextHeight(); appends the block and
  advances nextHeight. Fails (and must not mutate state) if height is out of sequence".
\<close>

definition Add :: "BlockCache \<Rightarrow> int \<Rightarrow> CompactBlock \<Rightarrow> error + BlockCache" where
  "Add c height block =
     (if height = GetNextHeight c then Inr (c\<lparr>blocks := blocks c @ [block]\<rparr>)
      else Inl (External ''cache add out of sequence''))"

text \<open>
  Modelled from the spec: "truncates the cache so that nextHeight becomes height + 1,
  discarding all cached blocks above height".
\<close>

definition Reorg :: "BlockCache \<Rightarrow> int \<Rightarrow> BlockCache" where
  "Reorg c height = c\<lparr>blocks := take (nat (height + 1 - firstBlock c)) (blocks c)\<rparr>"

text \<open>Modelled from the spec: "purely observational bookkeeping, no effect on stored blocks".\<close>

definition Sync :: "BlockCache \<Rightarrow> BlockCache" where
  "Sync c = c\<lparr>synced := True\<rparr>"

section \<open>The state of the process\<close>

text \<open>
  What the functions of this file read and write: the state of the RPC client, the cache,
  the global \<^verbatim>\<open>ingestorRunning\<close>, and \<^verbatim>\<open>stopIngestorChan\<close>, an unbuffered channel,
  which is the one fact whether a sender is waiting on it. Two fields are bookkeeping of
  the model and not of the program: \<open>started\<close> counts the \<^verbatim>\<open>go BlockIngestor(c, 0)\<close>
  statements executed, and \<open>trace\<close> lists, in order, the calls of the cache's mutating
  methods and of \<^verbatim>\<open>Time.Sleep\<close> (with the seconds slept).
\<close>

datatype event =
    CallSync
  | CallAdd int CompactBlock
  | CallReorg int
  | CallSleep nat

record 's world =
  rpc :: 's
  cache :: BlockCache
  ingestorRunning :: bool
  stopWaiting :: bool
  started :: nat
  trace :: "event list"

definition do_Sync :: "'s world \<Rightarrow> 's world" where
  "do_Sync w = w\<lparr>cache := Sync (cache w), trace := trace w @ [CallSync]\<rparr>"

definition do_Reorg :: "int \<Rightarrow> 's world \<Rightarrow> 's world" where
  "do_Reorg height w = w\<lparr>cache := Reorg (cache w) height, trace := trace w @ [CallReorg height]\<rparr>"

definition do_Sleep :: "nat \<Rightarrow> 's world \<Rightarrow> 's world" where
  "do_Sleep seconds w = w\<lparr>trace := trace w @ [CallSleep seconds]\<rparr>"

section \<open>The ingestor\<close>

text \<open>
  How one pass through the body of the loop ends: \<^verbatim>\<open>continue\<close> (or the end of the body),
  \<^verbatim>\<open>return\<close>, \<^verbatim>\<open>Log.Fatal\<close> (which ends the process) or a panic.
\<close>

datatype step = Continue | Return | Fatal string | Panic string

text \<open>
  Lines 408 to 416: the block fetched does not extend the cache (it is nil, or its
  previous hash does not match).
\<close>

definition not_extending :: "int \<Rightarrow> 's world \<Rightarrow> step \<times> 's world" where
  "not_extending height w =
     (if height = GetFirstHeight (cache w) then (Return, do_Sleep 20 (do_Sync w))
      else (Continue, do_Reorg (height - 1) w))"

text \<open>
  Lines 356 to 416, one pass through the body of the loop of \<^verbatim>\<open>BlockIngestor\<close>. The
  \<^verbatim>\<open>Log.Info\<close> lines, and \<^verbatim>\<open>lastLog\<close>, \<^verbatim>\<open>lastHeightLogged\<close> and \<^verbatim>\<open>Time.Now\<close>,
  which only decide whether they print, are left out.
\<close>

definition BlockIngestor_body :: "('s, 'b) deps \<Rightarrow> 's world \<Rightarrow> step \<times> 's world" where
  "BlockIngestor_body d w =
     (if stopWaiting w then (Return, w\<lparr>stopWaiting := False\<rparr>)
      else
        (case RawRequest d (rpc w) ''getbestblockhash'' [] of
           (Inl err, s1) \<Rightarrow> (Fatal ''error zcashd getbestblockhash rpc'', w\<lparr>rpc := s1\<rparr>)
         | (Inr result, s1) \<Rightarrow>
        (case Unmarshal_string d result of
           Inl err \<Rightarrow> (Fatal ''bad getbestblockhash return:'', w\<lparr>rpc := s1\<rparr>)
         | Inr hashHex \<Rightarrow>
        (case DecodeString d hashHex of
           Inl err \<Rightarrow> (Fatal ''error decoding getbestblockhash'', w\<lparr>rpc := s1\<rparr>)
         | Inr lastBestBlockHash \<Rightarrow>
            let w1 = w\<lparr>rpc := s1\<rparr>; height = GetNextHeight (cache w1) in
            if lastBestBlockHash = Reverse (GetLatestHash (cache w1))
            then (Continue, do_Sleep 2 (do_Sync w1))
            else
              (case getBlockFromRPC d height (rpc w1) of
                 (Panics m, s2) \<Rightarrow> (Panic m, w1\<lparr>rpc := s2\<rparr>)
               | (Returns (block, Some err), s2) \<Rightarrow>
                   (Fatal ''getblock failed, will retry'', w1\<lparr>rpc := s2\<rparr>)
               | (Returns (None, None), s2) \<Rightarrow> not_extending height (w1\<lparr>rpc := s2\<rparr>)
               | (Returns (Some block, None), s2) \<Rightarrow>
                   let w2 = w1\<lparr>rpc := s2\<rparr> in
                   if HashMatch (cache w2) (PrevHash block)
                   then
                     (case Add (cache w2) height block of
                        Inl err \<Rightarrow>
                          (Fatal ''Cache add failed:'', w2\<lparr>trace := trace w2 @ [CallAdd height block]\<rparr>)
                      | Inr c' \<Rightarrow>
                          (Continue, w2\<lparr>cache := c', trace := trace w2 @ [CallAdd height block]\<rparr>))
                   else not_extending height w2)))))"




definition stopIngestor :: "'s world \<Rightarrow> 's world" where
  "stopIngestor w =
     (if ingestorRunning w then w\<lparr>ingestorRunning := False, stopWaiting := True\<rparr> else w)"

section \<open>GetBlock\<close>

text \<open>\<^verbatim>\<open>GetBlock\<close>, lines 423 to 440.\<close>

definition GetBlock ::
  "('s, 'b) deps \<Rightarrow> int \<Rightarrow> 's world \<Rightarrow> (CompactBlock option \<times> error option) go \<times> 's world" where
  "GetBlock d height w =
     (case Get (cache w) height of
        Some block \<Rightarrow> (Returns (Some block, None), w)
      | None \<Rightarrow>
         (case getBlockFromRPC d height (rpc w) of
            (Panics m, s1) \<Rightarrow> (Panics m, w\<lparr>rpc := s1\<rparr>)
          | (Returns (block, Some err), s1) \<Rightarrow> (Returns (None, Some err), w\<lparr>rpc := s1\<rparr>)
          | (Returns (None, None), s1) \<Rightarrow>
              (Returns (None, Some (New ''block requested is newer than latest block'')),
               w\<lparr>rpc := s1\<rparr>)
          | (Returns (Some block, None), s1) \<Rightarrow> (Returns (Some block, None), w\<lparr>rpc := s1\<rparr>)))"

section \<open>FilterSpammyBlock\<close>

text \<open>Lines 455 to 458: the loop over the outputs of a transaction.\<close>

fun clear_outputs :: "CompactSaplingOutput list \<Rightarrow> CompactSaplingOutput list" where
  "clear_outputs [] = []"
| "clear_outputs (outputs # rest) = outputs\<lparr>Ciphertext := [], Epk := []\<rparr> # clear_outputs rest"

text \<open>Lines 461 to 465: the loop over the actions of a transaction.\<close>

fun clear_actions :: "CompactOrchardAction list \<Rightarrow> CompactOrchardAction list" where
  "clear_actions [] = []"
| "clear_actions (action # rest) =
     action\<lparr>ActionCiphertext := [], EphemeralKey := [], Nullifier := []\<rparr> # clear_actions rest"

text \<open>Lines 452 to 467: the loop over the transactions of the copy.\<close>

fun filter_vtx :: "int \<Rightarrow> CompactTx list \<Rightarrow> CompactTx list" where
  "filter_vtx spamFilterThreshold [] = []"
| "filter_vtx spamFilterThreshold (tx # rest) =
     (if int (length (Outputs tx)) + int (length (Actions tx)) > spamFilterThreshold
      then tx\<lparr>Outputs := clear_outputs (Outputs tx), Actions := clear_actions (Actions tx)\<rparr>
      else tx)
     # filter_vtx spamFilterThreshold rest"

text \<open>
  \<^verbatim>\<open>FilterSpammyBlock\<close>, lines 443 to 470, on the value of the block pointed to.
  \<^verbatim>\<open>proto.Clone\<close> gives a message equal to its argument, so on values it is the
  identity; section "FilterSpammyBlock on a store" below has the pointers.
\<close>

definition FilterSpammyBlock :: "CompactBlock \<Rightarrow> int \<Rightarrow> CompactBlock" where
  "FilterSpammyBlock block spamFilterThreshold =
     (if spamFilterThreshold = 0 then block
      else let newBlock = block in newBlock\<lparr>Vtx := filter_vtx spamFilterThreshold (Vtx newBlock)\<rparr>)"

section \<open>FilterSpammyBlock on a store\<close>

text \<open>
  In Go the block is reached through a pointer, its \<^verbatim>\<open>Vtx\<close> is a slice of pointers to
  transactions, and the \<^verbatim>\<open>Outputs\<close> and \<^verbatim>\<open>Actions\<close> of a transaction are slices of
  pointers. The store holds the objects of each type in the order of their allocation: an
  address is a position in the list, allocating appends to it, and an address past its end
  is a pointer that cannot be followed.
\<close>

type_synonym addr = nat

record TxObject =
  TxHash_of :: bytes
  OutputPtrs :: "addr list"
  ActionPtrs :: "addr list"
  TxRest_of :: bytes

record BlockObject =
  Height_of :: int
  Hash_of :: bytes
  PrevHash_of :: bytes
  Time_of :: int
  VtxPtrs :: "addr list"
  BlockRest_of :: bytes

record store =
  blockObjs :: "BlockObject list"
  txObjs :: "TxObject list"
  outputObjs :: "CompactSaplingOutput list"
  actionObjs :: "CompactOrchardAction list"

text \<open>
  The value that a pointer stands for: what is read by following it, and the pointers
  below it. \<open>None\<close> when a pointer on the way cannot be followed.
\<close>

fun read_all :: "(addr \<Rightarrow> 'a option) \<Rightarrow> addr list \<Rightarrow> 'a list option" where
  "read_all rd [] = Some []"
| "read_all rd (p # ps) =
     (case rd p of
        None \<Rightarrow> None
      | Some x \<Rightarrow> (case read_all rd ps of None \<Rightarrow> None | Some xs \<Rightarrow> Some (x # xs)))"

definition read_output :: "store \<Rightarrow> addr \<Rightarrow> CompactSaplingOutput option" where
  "read_output st p = (if p < length (outputObjs st) then Some (outputObjs st ! p) else None)"

definition read_action :: "store \<Rightarrow> addr \<Rightarrow> CompactOrchardAction option" where
  "read_action st p = (if p < length (actionObjs st) then Some (actionObjs st ! p) else None)"

definition read_tx :: "store \<Rightarrow> addr \<Rightarrow> CompactTx option" where
  "read_tx st p =
     (if p < length (txObjs st) then
        (case read_all (read_output st) (OutputPtrs (txObjs st ! p)) of
           None \<Rightarrow> None
         | Some os \<Rightarrow>
        (case read_all (read_action st) (ActionPtrs (txObjs st ! p)) of
           None \<Rightarrow> None
         | Some as \<Rightarrow>
             Some \<lparr>TxHash = TxHash_of (txObjs st ! p), Outputs = os, Actions = as,
                   TxRest = TxRest_of (txObjs st ! p)\<rparr>))
      else None)"

definition read_block :: "store \<Rightarrow> addr \<Rightarrow> CompactBlock option" where
  "read_block st p =
     (if p < length (blockObjs st) then
        (case read_all (read_tx st) (VtxPtrs (blockObjs st ! p)) of
           None \<Rightarrow> None
         | Some txs \<Rightarrow>
             Some \<lparr>Height = Height_of (blockObjs st ! p), Hash = Hash_of (blockObjs st ! p),
                   PrevHash = PrevHash_of (blockObjs st ! p), Time = Time_of (blockObjs st ! p),
                   Vtx = txs, BlockRest = BlockRest_of (blockObjs st ! p)\<rparr>)
      else None)"

text \<open>
  \<^verbatim>\<open>proto.Clone\<close> (of Go's protobuf library) returns a deep copy: a new object for the
  message and for every message below it. The model allocates the copies of the outputs,
  then of the actions, then of the transaction, transaction by transaction, and the block
  last; the order is the model's choice and shows only in the addresses.
\<close>

fun Clone_outputs :: "store \<Rightarrow> addr list \<Rightarrow> (addr list \<times> store) go" where
  "Clone_outputs st [] = Returns ([], st)"
| "Clone_outputs st (p # ps) =
     (if p < length (outputObjs st) then
        (case Clone_outputs (st\<lparr>outputObjs := outputObjs st @ [outputObjs st ! p]\<rparr>) ps of
           Panics m \<Rightarrow> Panics m
         | Returns (qs, st') \<Rightarrow> Returns (length (outputObjs st) # qs, st'))
      else Panics ''nil pointer dereference'')"

fun Clone_actions :: "store \<Rightarrow> addr list \<Rightarrow> (addr list \<times> store) go" where
  "Clone_actions st [] = Returns ([], st)"
| "Clone_actions st (p # ps) =
     (if p < length (actionObjs st) then
        (case Clone_actions (st\<lparr>actionObjs := actionObjs st @ [actionObjs st ! p]\<rparr>) ps of
           Panics m \<Rightarrow> Panics m
         | Returns (qs, st') \<Rightarrow> Returns (length (actionObjs st) # qs, st'))
      else Panics ''nil pointer dereference'')"

definition Clone_tx :: "store \<Rightarrow> addr \<Rightarrow> (addr \<times> store) go" where
  "Clone_tx st p =
     (if p < length (txObjs st) then
        (case Clone_outputs st (OutputPtrs (txObjs st ! p)) of
           Panics m \<Rightarrow> Panics m
         | Returns (os, st1) \<Rightarrow>
        (case Clone_actions st1 (ActionPtrs (txObjs st ! p)) of
           Panics m \<Rightarrow> Panics m
         | Returns (as, st2) \<Rightarrow>
             Returns (length (txObjs st2),
                      st2\<lparr>txObjs := txObjs st2 @ [(txObjs st ! p)\<lparr>OutputPtrs := os, ActionPtrs := as\<rparr>]\<rparr>)))
      else Panics ''nil pointer dereference'')"

fun Clone_txs :: "store \<Rightarrow> addr list \<Rightarrow> (addr list \<times> store) go" where
  "Clone_txs st [] = Returns ([], st)"
| "Clone_txs st (p # ps) =
     (case Clone_tx st p of
        Panics m \<Rightarrow> Panics m
      | Returns (q, st1) \<Rightarrow>
     (case Clone_txs st1 ps of
        Panics m \<Rightarrow> Panics m
      | Returns (qs, st2) \<Rightarrow> Returns (q # qs, st2)))"

definition Clone :: "store \<Rightarrow> addr \<Rightarrow> (addr \<times> store) go" where
  "Clone st p =
     (if p < length (blockObjs st) then
        (case Clone_txs st (VtxPtrs (blockObjs st ! p)) of
           Panics m \<Rightarrow> Panics m
         | Returns (txs, st1) \<Rightarrow>
             Returns (length (blockObjs st1),
                      st1\<lparr>blockObjs := blockObjs st1 @ [(blockObjs st ! p)\<lparr>VtxPtrs := txs\<rparr>]\<rparr>))
      else Panics ''nil pointer dereference'')"

text \<open>Lines 455 to 458, on the store: the assignments go to the objects pointed to.\<close>

fun clear_outputs_at :: "store \<Rightarrow> addr list \<Rightarrow> store go" where
  "clear_outputs_at st [] = Returns st"
| "clear_outputs_at st (outputs # rest) =
     (if outputs < length (outputObjs st) then
        clear_outputs_at
          (st\<lparr>outputObjs :=
                (outputObjs st)[outputs := (outputObjs st ! outputs)\<lparr>Ciphertext := [], Epk := []\<rparr>]\<rparr>)
          rest
      else Panics ''nil pointer dereference'')"

text \<open>Lines 461 to 465, on the store.\<close>

fun clear_actions_at :: "store \<Rightarrow> addr list \<Rightarrow> store go" where
  "clear_actions_at st [] = Returns st"
| "clear_actions_at st (action # rest) =
     (if action < length (actionObjs st) then
        clear_actions_at
          (st\<lparr>actionObjs :=
                (actionObjs st)[action := (actionObjs st ! action)
                   \<lparr>ActionCiphertext := [], EphemeralKey := [], Nullifier := []\<rparr>]\<rparr>)
          rest
      else Panics ''nil pointer dereference'')"

text \<open>Lines 452 to 467, on the store.\<close>

fun filter_vtx_at :: "int \<Rightarrow> store \<Rightarrow> addr list \<Rightarrow> store go" where
  "filter_vtx_at spamFilterThreshold st [] = Returns st"
| "filter_vtx_at spamFilterThreshold st (tx # rest) =
     (if tx < length (txObjs st) then
        (if int (length (OutputPtrs (txObjs st ! tx))) + int (length (ActionPtrs (txObjs st ! tx)))
              > spamFilterThreshold
         then
           (case clear_outputs_at st (OutputPtrs (txObjs st ! tx)) of
              Panics m \<Rightarrow> Panics m
            | Returns st1 \<Rightarrow>
           (case clear_actions_at st1 (ActionPtrs (txObjs st ! tx)) of
              Panics m \<Rightarrow> Panics m
            | Returns st2 \<Rightarrow> filter_vtx_at spamFilterThreshold st2 rest))
         else filter_vtx_at spamFilterThreshold st rest)
      else Panics ''nil pointer dereference'')"

text \<open>
  \<^verbatim>\<open>FilterSpammyBlock\<close>, lines 443 to 470, on the store: the result is the pointer
  returned and the store after the call.
\<close>

definition FilterSpammyBlock_at :: "store \<Rightarrow> addr \<Rightarrow> int \<Rightarrow> (addr \<times> store) go" where
  "FilterSpammyBlock_at st block spamFilterThreshold =
     (if spamFilterThreshold = 0 then Returns (block, st)
      else
        (case Clone st block of
           Panics m \<Rightarrow> Panics m
         | Returns (newBlock, st1) \<Rightarrow>
             if newBlock < length (blockObjs st1) then
               (case filter_vtx_at spamFilterThreshold st1 (VtxPtrs (blockObjs st1 ! newBlock)) of
                  Panics m \<Rightarrow> Panics m
                | Returns st2 \<Rightarrow> Returns (newBlock, st2))
             else Panics ''nil pointer dereference''))"

text \<open>
  Every object of the first store is in the second, at its address and as it was: the
  second store has only allocated.
\<close>

definition unchanged_in :: "store \<Rightarrow> store \<Rightarrow> bool" where
  "unchanged_in st st' =
     (prefix (blockObjs st) (blockObjs st') \<and> prefix (txObjs st) (txObjs st') \<and>
      prefix (outputObjs st) (outputObjs st') \<and> prefix (actionObjs st) (actionObjs st'))"

text \<open>
  For the proofs: the objects of a list of transactions laid out in a store as
  \<open>Clone_txs\<close> allocates them, the outputs from address \<open>no\<close> and the actions from
  address \<open>na\<close> on; and the store after laying out a list of transactions, or a block.
\<close>

fun tx_objects :: "nat \<Rightarrow> nat \<Rightarrow> CompactTx list \<Rightarrow> TxObject list" where
  "tx_objects no na [] = []"
| "tx_objects no na (tx # txs) =
     \<lparr>TxHash_of = TxHash tx, OutputPtrs = [no ..< no + length (Outputs tx)],
      ActionPtrs = [na ..< na + length (Actions tx)], TxRest_of = TxRest tx\<rparr>
     # tx_objects (no + length (Outputs tx)) (na + length (Actions tx)) txs"

definition lay_txs :: "store \<Rightarrow> CompactTx list \<Rightarrow> store" where
  "lay_txs st txs =
     st\<lparr>txObjs := txObjs st @ tx_objects (length (outputObjs st)) (length (actionObjs st)) txs,
        outputObjs := outputObjs st @ concat (map Outputs txs),
        actionObjs := actionObjs st @ concat (map Actions txs)\<rparr>"

definition lay_block :: "store \<Rightarrow> CompactBlock \<Rightarrow> store" where
  "lay_block st b =
     (lay_txs st (Vtx b))
       \<lparr>blockObjs := blockObjs st @
          [\<lparr>Height_of = Height b, Hash_of = Hash b, PrevHash_of = PrevHash b, Time_of = Time b,
            VtxPtrs = [length (txObjs st) ..< length (txObjs st) + length (Vtx b)],
            BlockRest_of = BlockRest b\<rparr>]\<rparr>"

section \<open>GetBlockRange\<close>






section \<open>GetLightdInfo\<close>




section \<open>A scripted node, for running the functions\<close>

text \<open>
  A stand-in for what section "What the file calls but does not define" leaves open, in
  the manner of the mock of the repository's unit tests: the RPC client answers from a
  script, one reply per request, in order. A JSON string is stood for by its content (and
  \<open>''?''\<close> is malformed JSON); the reply to the verbose \<^verbatim>\<open>getblock\<close> is stood for by
  its transaction ids separated by commas; a raw block is four bytes (height, hash,
  previous hash, number of transactions), and what follows them is left over.
\<close>

definition hexval :: "char \<Rightarrow> nat option" where
  "hexval c =
     (let n = (of_char c :: nat) in
      if 48 \<le> n \<and> n \<le> 57 then Some (n - 48)
      else if 97 \<le> n \<and> n \<le> 102 then Some (n - 87)
      else if 65 \<le> n \<and> n \<le> 70 then Some (n - 55)
      else None)"

fun hex_decode :: "string \<Rightarrow> error + bytes" where
  "hex_decode [] = Inr []"
| "hex_decode [c] = Inl (External ''encoding/hex: odd length hex string'')"
| "hex_decode (a # b # cs) =
     (case (hexval a, hexval b) of
        (Some x, Some y) \<Rightarrow>
          (case hex_decode cs of Inl e \<Rightarrow> Inl e | Inr bs \<Rightarrow> Inr (of_nat (16 * x + y) # bs))
      | _ \<Rightarrow> Inl (External ''encoding/hex: invalid byte''))"

fun comma_fields :: "string \<Rightarrow> string list" where
  "comma_fields [] = []"
| "comma_fields (c # cs) =
     (if c = CHR '','' then [] # comma_fields cs
      else (case comma_fields cs of [] \<Rightarrow> [c] # [] | f # fs \<Rightarrow> (c # f) # fs))"

definition empty_tx :: CompactTx where
  "empty_tx = \<lparr>TxHash = [], Outputs = [], Actions = [], TxRest = []\<rparr>"

definition parse_block :: "bytes \<Rightarrow> error + (bytes \<times> CompactBlock)" where
  "parse_block data =
     (case data of
        h # hs # p # n # rest \<Rightarrow>
          Inr (rest, \<lparr>Height = uint h, Hash = [hs], PrevHash = [p], Time = 0,
                      Vtx = replicate (unat n) empty_tx, BlockRest = []\<rparr>)
      | _ \<Rightarrow> Inl (External ''parser: short block''))"

definition set_txid :: "CompactBlock \<Rightarrow> nat \<Rightarrow> bytes \<Rightarrow> CompactBlock" where
  "set_txid b i txid = b\<lparr>Vtx := (Vtx b)[i := (Vtx b ! i)\<lparr>TxHash := txid\<rparr>]\<rparr>"

definition unmarshal_text :: "raw \<Rightarrow> error + string" where
  "unmarshal_text r = (if r = ''?'' then Inl (External ''json: invalid character'') else Inr r)"

definition scripted :: "((error + raw) list, CompactBlock) deps" where
  "scripted =
     \<lparr>RawRequest = (\<lambda>s method params.
        case s of [] \<Rightarrow> (Inl (External ''script exhausted''), []) | r # rs \<Rightarrow> (r, rs)),
      Unmarshal_string = unmarshal_text,
      Unmarshal_getblock1 = (\<lambda>r.
        case unmarshal_text r of Inl e \<Rightarrow> Inl e | Inr x \<Rightarrow> Inr \<lparr>Tx = comma_fields x\<rparr>),
      Unmarshal_getinfo = (\<lambda>r.
        case unmarshal_text r of Inl e \<Rightarrow> Inl e | Inr x \<Rightarrow> Inr \<lparr>Build = x, Subversion = x\<rparr>),
      Unmarshal_getblockchaininfo = (\<lambda>r.
        case unmarshal_text r of Inl e \<Rightarrow> Inl e
        | Inr x \<Rightarrow> Inr \<lparr>Chain = x, Upgrades = Map.empty, Blocks = 0, BestBlockHash = x,
                         Consensus = \<lparr>Nextblock = x, Chaintip = x\<rparr>, EstimatedHeight = 0\<rparr>),
      DecodeString = hex_decode,
      ParseFromSlice = parse_block,
      GetHeight = Height,
      NumTransactions = (\<lambda>b. length (Vtx b)),
      SetTxID = set_txid,
      ToCompact = (\<lambda>b. b)\<rparr>"

text \<open>A block of the given height, hash and previous hash, with no transactions.\<close>

definition blk :: "int \<Rightarrow> 8 word \<Rightarrow> 8 word \<Rightarrow> CompactBlock" where
  "blk h hs p = \<lparr>Height = h, Hash = [hs], PrevHash = [p], Time = 0, Vtx = [], BlockRest = []\<rparr>"

text \<open>
  The cache of the spec's reorg scenario: heights 1 to 4, each block's previous hash the
  hash of the block below.
\<close>

definition cache_1_to_4 :: BlockCache where
  "cache_1_to_4 =
     \<lparr>firstBlock = 1, blocks = [blk 1 1 0, blk 2 2 1, blk 3 3 2, blk 4 4 3], synced = False\<rparr>"

definition world_of :: "'s \<Rightarrow> BlockCache \<Rightarrow> 's world" where
  "world_of s c =
     \<lparr>rpc = s, cache = c, ingestorRunning = False, stopWaiting = False, started = 0, trace = []\<rparr>"


text \<open>A cache whose window starts at height 1 and holds no block yet.\<close>

definition cache_empty :: BlockCache where
  "cache_empty = \<lparr>firstBlock = 1, blocks = [], synced = False\<rparr>"

text \<open>
  A store for running \<open>FilterSpammyBlock_at\<close>: one block, at address 0, of two
  transactions; the first has one output and one action, the second two outputs and one
  action. \<open>block0\<close> is the value of that block.
\<close>

definition output0 :: "8 word \<Rightarrow> CompactSaplingOutput" where
  "output0 x = \<lparr>Epk = [x, 1], Ciphertext = [x, 2], OutputRest = [x, 3]\<rparr>"

definition action0 :: "8 word \<Rightarrow> CompactOrchardAction" where
  "action0 x = \<lparr>Nullifier = [x, 4], EphemeralKey = [x, 5], ActionCiphertext = [x, 6],
                ActionRest = [x, 7]\<rparr>"

definition store0 :: store where
  "store0 =
     \<lparr>blockObjs = [\<lparr>Height_of = 7, Hash_of = [7], PrevHash_of = [6], Time_of = 100,
                     VtxPtrs = [0, 1], BlockRest_of = [9]\<rparr>],
      txObjs = [\<lparr>TxHash_of = [10], OutputPtrs = [0], ActionPtrs = [0], TxRest_of = [11]\<rparr>,
                \<lparr>TxHash_of = [20], OutputPtrs = [1, 2], ActionPtrs = [1], TxRest_of = [21]\<rparr>],
      outputObjs = [output0 1, output0 2, output0 3],
      actionObjs = [action0 1, action0 2]\<rparr>"

definition block0 :: CompactBlock where
  "block0 =
     \<lparr>Height = 7, Hash = [7], PrevHash = [6], Time = 100,
      Vtx = [\<lparr>TxHash = [10], Outputs = [output0 1], Actions = [action0 1], TxRest = [11]\<rparr>,
             \<lparr>TxHash = [20], Outputs = [output0 2, output0 3], Actions = [action0 2],
              TxRest = [21]\<rparr>],
      BlockRest = [9]\<rparr>"

section \<open>Theorems\<close>

subsection \<open>The fetcher and the height that is not yet there\<close>

text \<open>
  C5. Whatever the height: when the RPC client answers the non-verbose \<^verbatim>\<open>getblock\<close>
  request with an error whose code (the text before the first colon of its message) is
  \<^verbatim>\<open>-8\<close>, \<^verbatim>\<open>getBlockFromRPC\<close> returns a nil block and a nil error; any other error of
  that request is returned as a non-nil error (the RPC error, wrapped), with a nil block.
\<close>

theorem getBlockFromRPC_rpc_error:
  assumes "RawRequest d s ''getblock'' (getblock_params height ''0'') = (Inl rpcErr, s1)"
  shows "(Split0 (Error rpcErr) = ''-8'' \<longrightarrow>
            fst (getBlockFromRPC d height s) = Returns (None, None)) \<and>
         (Split0 (Error rpcErr) \<noteq> ''-8'' \<longrightarrow>
            fst (getBlockFromRPC d height s) =
              Returns (None, Some (Wrap rpcErr ''error requesting block'')))"
  using assms by (simp add: getBlockFromRPC_def)

theorem getBlockFromRPC_rpc_error_witness:
  "RawRequest scripted [Inl (External ''-8: Block height out of range'')] ''getblock''
     (getblock_params 5 ''0'') = (Inl (External ''-8: Block height out of range''), []) \<and>
   Split0 (Error (External ''-8: Block height out of range'')) = ''-8'' \<and>
   fst (getBlockFromRPC scripted 5 [Inl (External ''-8: Block height out of range'')]) =
     Returns (None, None) \<and>
   RawRequest scripted [Inl (External ''-1: Block not found'')] ''getblock''
     (getblock_params 5 ''0'') = (Inl (External ''-1: Block not found''), []) \<and>
   Split0 (Error (External ''-1: Block not found'')) \<noteq> ''-8'' \<and>
   fst (getBlockFromRPC scripted 5 [Inl (External ''-1: Block not found'')]) =
     Returns (None, Some (Wrap (External ''-1: Block not found'') ''error requesting block''))"
proof -
  have a: "RawRequest scripted [Inl (External ''-8: Block height out of range'')] ''getblock''
     (getblock_params 5 ''0'') = (Inl (External ''-8: Block height out of range''), [])"
    by (simp add: scripted_def)
  have b: "RawRequest scripted [Inl (External ''-1: Block not found'')] ''getblock''
     (getblock_params 5 ''0'') = (Inl (External ''-1: Block not found''), [])"
    by (simp add: scripted_def)
  have c: "Split0 (Error (External ''-8: Block height out of range'')) = ''-8''"
    by (simp add: Split0_def)
  have e: "Split0 (Error (External ''-1: Block not found'')) \<noteq> ''-8''"
    by (simp add: Split0_def)
  show ?thesis
    using a b c e getBlockFromRPC_rpc_error [OF a] getBlockFromRPC_rpc_error [OF b]
    by simp
qed

subsection \<open>GetBlock\<close>

text \<open>\<^verbatim>\<open>GetBlock\<close> never returns a nil block together with a nil error.\<close>

theorem GetBlock_not_nil_nil: "fst (GetBlock d height w) \<noteq> Returns (None, None)"
  by (simp add: GetBlock_def split: option.splits prod.splits go.splits)

text \<open>
  C9. When \<^verbatim>\<open>GetBlock\<close> misses the cache and the fetch returns a nil block with a nil
  error (the height is not yet available), \<^verbatim>\<open>GetBlock\<close> returns a nil block and the
  error "block requested is newer than latest block", and not a nil block with a nil
  error.
\<close>

theorem GetBlock_newer_than_tip:
  assumes "Get (cache w) height = None"
    and "getBlockFromRPC d height (rpc w) = (Returns (None, None), s1)"
  shows "fst (GetBlock d height w) =
           Returns (None, Some (New ''block requested is newer than latest block'')) \<and>
         fst (GetBlock d height w) \<noteq> Returns (None, None)"
  using assms by (simp add: GetBlock_def)

theorem GetBlock_newer_than_tip_witness:
  "Get (cache (world_of [Inl (External ''-8: Block height out of range'')] cache_1_to_4)) 9 = None \<and>
   getBlockFromRPC scripted 9
       (rpc (world_of [Inl (External ''-8: Block height out of range'')] cache_1_to_4)) =
     (Returns (None, None), []) \<and>
   fst (GetBlock scripted 9 (world_of [Inl (External ''-8: Block height out of range'')] cache_1_to_4)) =
     Returns (None, Some (New ''block requested is newer than latest block''))"
proof -
  have a: "Get (cache (world_of [Inl (External ''-8: Block height out of range'')] cache_1_to_4)) 9 = None"
    by code_simp
  have b: "getBlockFromRPC scripted 9
       (rpc (world_of [Inl (External ''-8: Block height out of range'')] cache_1_to_4)) =
     (Returns (None, None), [])"
    by code_simp
  show ?thesis using a b GetBlock_newer_than_tip [OF a b] by simp
qed

text \<open>
  C8. Whatever the cache and the height, inside the cache's window or outside it (where
  the block is fetched from the node), and however the call ends: \<^verbatim>\<open>GetBlock\<close> leaves
  the cache as it was. \<^verbatim>\<open>GetFirstHeight\<close> and \<^verbatim>\<open>GetNextHeight\<close> answer the same
  before and after, the blocks held are the same, and none of the cache's mutating
  methods has been called.
\<close>

theorem GetBlock_cache_unchanged:
  "cache (snd (GetBlock d height w)) = cache w \<and>
   GetFirstHeight (cache (snd (GetBlock d height w))) = GetFirstHeight (cache w) \<and>
   GetNextHeight (cache (snd (GetBlock d height w))) = GetNextHeight (cache w) \<and>
   blocks (cache (snd (GetBlock d height w))) = blocks (cache w) \<and>
   trace (snd (GetBlock d height w)) = trace w"
  by (simp add: GetBlock_def split: option.splits prod.splits go.splits)

subsection \<open>GetLightdInfo\<close>



subsection \<open>The ingestor\<close>

text \<open>
  C1, as the code has it. In every pass of the loop in which the fetch returns a nil block
  and a nil error, the ingestor does not call \<^verbatim>\<open>Add\<close>. When \<^verbatim>\<open>GetNextHeight\<close> is
  \<^verbatim>\<open>GetFirstHeight\<close> it calls \<^verbatim>\<open>Sync\<close>, sleeps 20 seconds and leaves the loop;
  otherwise it calls \<^verbatim>\<open>Reorg(GetNextHeight() - 1)\<close> and goes on to the next pass
  without sleeping.
\<close>

theorem BlockIngestor_nil_block:
  assumes "\<not> stopWaiting w"
    and "RawRequest d (rpc w) ''getbestblockhash'' [] = (Inr result, s1)"
    and "Unmarshal_string d result = Inr hashHex"
    and "DecodeString d hashHex = Inr tip"
    and "tip \<noteq> Reverse (GetLatestHash (cache w))"
    and "getBlockFromRPC d (GetNextHeight (cache w)) s1 = (Returns (None, None), s2)"
  shows "BlockIngestor_body d w =
           (if GetNextHeight (cache w) = GetFirstHeight (cache w)
            then (Return, w\<lparr>rpc := s2, cache := Sync (cache w),
                             trace := trace w @ [CallSync, CallSleep 20]\<rparr>)
            else (Continue, w\<lparr>rpc := s2, cache := Reorg (cache w) (GetNextHeight (cache w) - 1),
                               trace := trace w @ [CallReorg (GetNextHeight (cache w) - 1)]\<rparr>))"
  using assms
  by (simp add: BlockIngestor_body_def not_extending_def do_Sync_def do_Sleep_def
      do_Reorg_def Let_def)

theorem BlockIngestor_nil_block_witness:
  "\<not> stopWaiting (world_of [Inr ''05'', Inl (External ''-8: Block height out of range'')] cache_empty) \<and>
   RawRequest scripted [Inr ''05'', Inl (External ''-8: Block height out of range'')]
     ''getbestblockhash'' [] = (Inr ''05'', [Inl (External ''-8: Block height out of range'')]) \<and>
   Unmarshal_string scripted ''05'' = Inr ''05'' \<and>
   DecodeString scripted ''05'' = Inr [5] \<and>
   [5] \<noteq> Reverse (GetLatestHash cache_empty) \<and>
   getBlockFromRPC scripted (GetNextHeight cache_empty)
     [Inl (External ''-8: Block height out of range'')] = (Returns (None, None), []) \<and>
   GetNextHeight cache_empty = GetFirstHeight cache_empty \<and>
   BlockIngestor_body scripted
       (world_of [Inr ''05'', Inl (External ''-8: Block height out of range'')] cache_empty) =
     (Return, (world_of [] (Sync cache_empty))\<lparr>trace := [CallSync, CallSleep 20]\<rparr>)"
proof -
  let ?w = "world_of [Inr ''05'', Inl (External ''-8: Block height out of range'')] cache_empty"
  have a: "\<not> stopWaiting ?w" by (simp add: world_of_def)
  have b: "RawRequest scripted (rpc ?w) ''getbestblockhash'' [] =
             (Inr ''05'', [Inl (External ''-8: Block height out of range'')])"
    by (simp add: scripted_def world_of_def)
  have c: "Unmarshal_string scripted ''05'' = Inr ''05''" by code_simp
  have e: "DecodeString scripted ''05'' = Inr [5]" by code_simp
  have f: "[5] \<noteq> Reverse (GetLatestHash (cache ?w))" by code_simp
  have g: "getBlockFromRPC scripted (GetNextHeight (cache ?w))
             [Inl (External ''-8: Block height out of range'')] = (Returns (None, None), [])"
    by code_simp
  have h: "GetNextHeight cache_empty = GetFirstHeight cache_empty" by code_simp
  show ?thesis
    using a b c e f g h BlockIngestor_nil_block [OF a b c e f g]
    by (simp add: world_of_def)
qed

text \<open>
  C1, as the claim has it, fails: with heights 1 to 4 cached and the node answering
  \<^verbatim>\<open>-8\<close> for height 5, the fetch returns a nil block and a nil error, and the pass
  calls \<^verbatim>\<open>Reorg(4)\<close> and ends without a sleep.
\<close>

theorem BlockIngestor_nil_block_counterexample:
  "fst (getBlockFromRPC scripted (GetNextHeight cache_1_to_4)
          [Inl (External ''-8: Block height out of range'')]) = Returns (None, None) \<and>
   fst (BlockIngestor_body scripted
          (world_of [Inr ''05'', Inl (External ''-8: Block height out of range'')] cache_1_to_4)) =
     Continue \<and>
   trace (snd (BlockIngestor_body scripted
          (world_of [Inr ''05'', Inl (External ''-8: Block height out of range'')] cache_1_to_4))) =
     [CallReorg 4]"
  by code_simp




text \<open>
  The pass that extends the cache: when the block fetched is not nil and its previous
  hash matches, the one call made on the cache is \<^verbatim>\<open>Add(GetNextHeight(), block)\<close>; it
  appends the block, and the loop goes on.
\<close>

theorem BlockIngestor_add:
  assumes "\<not> stopWaiting w"
    and "RawRequest d (rpc w) ''getbestblockhash'' [] = (Inr result, s1)"
    and "Unmarshal_string d result = Inr hashHex"
    and "DecodeString d hashHex = Inr tip"
    and "tip \<noteq> Reverse (GetLatestHash (cache w))"
    and "getBlockFromRPC d (GetNextHeight (cache w)) s1 = (Returns (Some block, None), s2)"
    and "HashMatch (cache w) (PrevHash block)"
  shows "BlockIngestor_body d w =
           (Continue, w\<lparr>rpc := s2, cache := (cache w)\<lparr>blocks := blocks (cache w) @ [block]\<rparr>,
                          trace := trace w @ [CallAdd (GetNextHeight (cache w)) block]\<rparr>)"
  using assms
  by (simp add: BlockIngestor_body_def Add_def Let_def)

theorem BlockIngestor_add_witness:
  "BlockIngestor_body scripted (world_of [Inr ''05'', Inr ''05050400'', Inr []] cache_1_to_4) =
     (Continue, (world_of [] (cache_1_to_4\<lparr>blocks := blocks cache_1_to_4 @ [blk 5 5 4]\<rparr>))
                  \<lparr>trace := [CallAdd 5 (blk 5 5 4)]\<rparr>)"
proof -
  let ?w = "world_of [Inr ''05'', Inr ''05050400'', Inr []] cache_1_to_4"
  have a: "\<not> stopWaiting ?w" by (simp add: world_of_def)
  have b: "RawRequest scripted (rpc ?w) ''getbestblockhash'' [] =
             (Inr ''05'', [Inr ''05050400'', Inr []])"
    by (simp add: scripted_def world_of_def)
  have c: "Unmarshal_string scripted ''05'' = Inr ''05''" by code_simp
  have e: "DecodeString scripted ''05'' = Inr [5]" by code_simp
  have f: "[5] \<noteq> Reverse (GetLatestHash (cache ?w))" by code_simp
  have g: "getBlockFromRPC scripted (GetNextHeight (cache ?w)) [Inr ''05050400'', Inr []] =
             (Returns (Some (blk 5 5 4), None), [])"
    by code_simp
  have h: "HashMatch (cache ?w) (PrevHash (blk 5 5 4))" by code_simp
  have j: "GetNextHeight cache_1_to_4 = 5" by code_simp
  show ?thesis
    using j BlockIngestor_add [OF a b c e f g h]
    by (simp add: world_of_def)
qed






subsection \<open>Malformed replies to a block fetch\<close>

text \<open>
  C3. The node answers the raw request with a block of height 5 that holds one
  transaction, and the verbose request with an empty list of transaction ids: the fetch
  does not return an error, it panics at \<^verbatim>\<open>block1.Tx[i]\<close>.
\<close>

theorem getBlockFromRPC_short_txid_list:
  "fst (getBlockFromRPC scripted 5 [Inr ''05050401'', Inr []]) = Panics ''index out of range''"
  by code_simp

text \<open>
  The other malformed replies of claim C3 are returned as errors. When the raw request
  goes through and its reply is a JSON string: hex that does not decode is returned as
  the decoder's error, wrapped; bytes left over after parsing, and a parsed height other
  than the one asked for, are each returned as an error of their own. In all three the
  block is nil and no second request is made.
\<close>

theorem getBlockFromRPC_malformed_reply:
  assumes "RawRequest d s ''getblock'' (getblock_params height ''0'') = (Inr result, s1)"
    and "Unmarshal_string d result = Inr blockDataHex"
  shows "(\<forall>err. DecodeString d blockDataHex = Inl err \<longrightarrow>
            getBlockFromRPC d height s =
              (Returns (None, Some (Wrap err ''error decoding getblock output'')), s1)) \<and>
         (\<forall>blockData rest block.
            DecodeString d blockDataHex = Inr blockData \<longrightarrow>
            ParseFromSlice d blockData = Inr (rest, block) \<longrightarrow> rest \<noteq> [] \<longrightarrow>
            getBlockFromRPC d height s =
              (Returns (None, Some (New ''received overlong message'')), s1)) \<and>
         (\<forall>blockData block.
            DecodeString d blockDataHex = Inr blockData \<longrightarrow>
            ParseFromSlice d blockData = Inr ([], block) \<longrightarrow> GetHeight d block \<noteq> height \<longrightarrow>
            getBlockFromRPC d height s =
              (Returns (None, Some (New ''received unexpected height block'')), s1))"
  using assms by (simp add: getBlockFromRPC_def)

theorem getBlockFromRPC_malformed_reply_witness:
  "getBlockFromRPC scripted 5 [Inr ''zz''] =
     (Returns (None, Some (Wrap (External ''encoding/hex: invalid byte'')
                                ''error decoding getblock output'')), []) \<and>
   getBlockFromRPC scripted 5 [Inr ''0505040099''] =
     (Returns (None, Some (New ''received overlong message'')), []) \<and>
   getBlockFromRPC scripted 5 [Inr ''06060500''] =
     (Returns (None, Some (New ''received unexpected height block'')), [])"
proof -
  have r: "RawRequest scripted [Inr ''zz''] ''getblock'' (getblock_params 5 ''0'') = (Inr ''zz'', [])"
    "RawRequest scripted [Inr ''0505040099''] ''getblock'' (getblock_params 5 ''0'') =
       (Inr ''0505040099'', [])"
    "RawRequest scripted [Inr ''06060500''] ''getblock'' (getblock_params 5 ''0'') =
       (Inr ''06060500'', [])"
    by (simp_all add: scripted_def)
  have u: "Unmarshal_string scripted ''zz'' = Inr ''zz''"
    "Unmarshal_string scripted ''0505040099'' = Inr ''0505040099''"
    "Unmarshal_string scripted ''06060500'' = Inr ''06060500''"
    by (simp_all add: scripted_def unmarshal_text_def)
  have h1: "DecodeString scripted ''zz'' = Inl (External ''encoding/hex: invalid byte'')"
    by code_simp
  have h2: "DecodeString scripted ''0505040099'' = Inr [5, 5, 4, 0, 0x99]" by code_simp
  have p2: "ParseFromSlice scripted [5, 5, 4, 0, 0x99] = Inr ([0x99], blk 5 5 4)" by code_simp
  have h3: "DecodeString scripted ''06060500'' = Inr [6, 6, 5, 0]" by code_simp
  have p3: "ParseFromSlice scripted [6, 6, 5, 0] = Inr ([], blk 6 6 5)" by code_simp
  have g3: "GetHeight scripted (blk 6 6 5) \<noteq> 5" by code_simp
  show ?thesis
    using h1 h2 p2 h3 p3 g3
      getBlockFromRPC_malformed_reply [OF r(1) u(1)]
      getBlockFromRPC_malformed_reply [OF r(2) u(2)]
      getBlockFromRPC_malformed_reply [OF r(3) u(3)]
    by simp
qed

subsection \<open>GetBlockRange\<close>








subsection \<open>FilterSpammyBlock: the values\<close>

lemma clear_outputs_length: "length (clear_outputs os) = length os"
  by (induction os) auto

lemma clear_actions_length: "length (clear_actions as) = length as"
  by (induction as) auto

lemma clear_outputs_nth:
  "k < length os \<Longrightarrow> clear_outputs os ! k = (os ! k)\<lparr>Ciphertext := [], Epk := []\<rparr>"
  by (induction os arbitrary: k) (auto simp: nth_Cons')

lemma clear_actions_nth:
  "k < length as \<Longrightarrow>
   clear_actions as ! k = (as ! k)\<lparr>ActionCiphertext := [], EphemeralKey := [], Nullifier := []\<rparr>"
  by (induction as arbitrary: k) (auto simp: nth_Cons')

lemma filter_vtx_length: "length (filter_vtx t txs) = length txs"
  by (induction txs) auto

lemma filter_vtx_nth:
  "i < length txs \<Longrightarrow>
   filter_vtx t txs ! i =
     (if int (length (Outputs (txs ! i))) + int (length (Actions (txs ! i))) > t
      then (txs ! i)\<lparr>Outputs := clear_outputs (Outputs (txs ! i)),
                     Actions := clear_actions (Actions (txs ! i))\<rparr>
      else txs ! i)"
  by (induction txs arbitrary: i) (auto simp: nth_Cons')

subsection \<open>FilterSpammyBlock: reading the store\<close>

lemma read_all_length: "read_all rd ps = Some xs \<Longrightarrow> length xs = length ps"
  by (induction ps arbitrary: xs) (auto split: option.splits)

lemma read_all_mono:
  "read_all rd ps = Some xs \<Longrightarrow> (\<And>p x. rd p = Some x \<Longrightarrow> rd' p = Some x) \<Longrightarrow>
   read_all rd' ps = Some xs"
  by (induction ps arbitrary: xs) (auto split: option.splits)

lemma read_output_mono:
  "prefix (outputObjs st) (outputObjs st') \<Longrightarrow> read_output st p = Some x \<Longrightarrow>
   read_output st' p = Some x"
  by (auto simp: read_output_def prefix_def nth_append split: if_splits)

lemma read_action_mono:
  "prefix (actionObjs st) (actionObjs st') \<Longrightarrow> read_action st p = Some x \<Longrightarrow>
   read_action st' p = Some x"
  by (auto simp: read_action_def prefix_def nth_append split: if_splits)

lemma read_tx_mono:
  assumes "unchanged_in st st'" and "read_tx st p = Some tx"
  shows "read_tx st' p = Some tx"
proof -
  from assms(2) have p: "p < length (txObjs st)"
    by (simp add: read_tx_def split: if_splits)
  from assms(1) p have same: "txObjs st' ! p = txObjs st ! p" and p': "p < length (txObjs st')"
    by (auto simp: unchanged_in_def prefix_def nth_append)
  from assms(2) p obtain os as where
    os: "read_all (read_output st) (OutputPtrs (txObjs st ! p)) = Some os" and
    as: "read_all (read_action st) (ActionPtrs (txObjs st ! p)) = Some as" and
    tx: "tx = \<lparr>TxHash = TxHash_of (txObjs st ! p), Outputs = os, Actions = as,
               TxRest = TxRest_of (txObjs st ! p)\<rparr>"
    by (auto simp: read_tx_def split: option.splits)
  have os': "read_all (read_output st') (OutputPtrs (txObjs st ! p)) = Some os"
    by (rule read_all_mono [OF os])
      (use assms(1) in \<open>auto simp: unchanged_in_def intro: read_output_mono\<close>)
  have as': "read_all (read_action st') (ActionPtrs (txObjs st ! p)) = Some as"
    by (rule read_all_mono [OF as])
      (use assms(1) in \<open>auto simp: unchanged_in_def intro: read_action_mono\<close>)
  show ?thesis
    using p' same os' as' tx by (simp add: read_tx_def)
qed

lemma read_block_mono:
  assumes "unchanged_in st st'" and "read_block st p = Some b"
  shows "read_block st' p = Some b"
proof -
  from assms(2) have p: "p < length (blockObjs st)"
    by (simp add: read_block_def split: if_splits)
  from assms(1) p have same: "blockObjs st' ! p = blockObjs st ! p" and p': "p < length (blockObjs st')"
    by (auto simp: unchanged_in_def prefix_def nth_append)
  from assms(2) p obtain txs where
    txs: "read_all (read_tx st) (VtxPtrs (blockObjs st ! p)) = Some txs" and
    b: "b = \<lparr>Height = Height_of (blockObjs st ! p), Hash = Hash_of (blockObjs st ! p),
                   PrevHash = PrevHash_of (blockObjs st ! p), Time = Time_of (blockObjs st ! p),
                   Vtx = txs, BlockRest = BlockRest_of (blockObjs st ! p)\<rparr>"
    by (auto simp: read_block_def split: option.splits)
  have txs': "read_all (read_tx st') (VtxPtrs (blockObjs st ! p)) = Some txs"
    using txs by (rule read_all_mono) (rule read_tx_mono [OF assms(1)])
  show ?thesis
    using p' same txs' b by (simp add: read_block_def)
qed


lemma read_output_SomeD:
  "read_output st p = Some x \<Longrightarrow> p < length (outputObjs st) \<and> x = outputObjs st ! p"
  by (simp add: read_output_def split: if_splits)

lemma read_action_SomeD:
  "read_action st p = Some x \<Longrightarrow> p < length (actionObjs st) \<and> x = actionObjs st ! p"
  by (simp add: read_action_def split: if_splits)

lemma read_all_ConsD:
  "read_all rd (p # ps) = Some xs \<Longrightarrow>
   \<exists>x xs'. rd p = Some x \<and> read_all rd ps = Some xs' \<and> xs = x # xs'"
  by (auto split: option.splits)

subsection \<open>FilterSpammyBlock: the copy\<close>

lemma Clone_outputs_lay:
  "read_all (read_output st) ps = Some os \<Longrightarrow>
   Clone_outputs st ps =
     Returns ([length (outputObjs st) ..< length (outputObjs st) + length ps],
              st\<lparr>outputObjs := outputObjs st @ os\<rparr>)"
proof (induction ps arbitrary: st os)
  case Nil
  then show ?case by simp
next
  case (Cons p ps)
  from read_all_ConsD [OF Cons.prems] obtain x os' where
    x: "read_output st p = Some x" and
    os': "read_all (read_output st) ps = Some os'" and
    os0: "os = x # os'"
    by blast
  from read_output_SomeD [OF x] os0 have
    p: "p < length (outputObjs st)" and os: "os = outputObjs st ! p # os'"
    by simp_all
  let ?st1 = "st\<lparr>outputObjs := outputObjs st @ [outputObjs st ! p]\<rparr>"
  have "read_all (read_output ?st1) ps = Some os'"
    by (rule read_all_mono [OF os']) (auto simp: read_output_def nth_append split: if_splits)
  from Cons.IH [OF this] p os show ?case
    by (simp add: upt_conv_Cons del: upt_Suc)
qed

lemma Clone_actions_lay:
  "read_all (read_action st) ps = Some as \<Longrightarrow>
   Clone_actions st ps =
     Returns ([length (actionObjs st) ..< length (actionObjs st) + length ps],
              st\<lparr>actionObjs := actionObjs st @ as\<rparr>)"
proof (induction ps arbitrary: st as)
  case Nil
  then show ?case by simp
next
  case (Cons p ps)
  from read_all_ConsD [OF Cons.prems] obtain x as' where
    x: "read_action st p = Some x" and
    as': "read_all (read_action st) ps = Some as'" and
    as0: "as = x # as'"
    by blast
  from read_action_SomeD [OF x] as0 have
    p: "p < length (actionObjs st)" and as: "as = actionObjs st ! p # as'"
    by simp_all
  let ?st1 = "st\<lparr>actionObjs := actionObjs st @ [actionObjs st ! p]\<rparr>"
  have "read_all (read_action ?st1) ps = Some as'"
    by (rule read_all_mono [OF as']) (auto simp: read_action_def nth_append split: if_splits)
  from Cons.IH [OF this] p as show ?case
    by (simp add: upt_conv_Cons del: upt_Suc)
qed

lemma Clone_tx_lay:
  assumes "read_tx st p = Some tx"
  shows "Clone_tx st p = Returns (length (txObjs st), lay_txs st [tx])"
proof -
  from assms have p: "p < length (txObjs st)"
    by (simp add: read_tx_def split: if_splits)
  from assms p obtain os as where
    os: "read_all (read_output st) (OutputPtrs (txObjs st ! p)) = Some os" and
    as: "read_all (read_action st) (ActionPtrs (txObjs st ! p)) = Some as" and
    tx: "tx = \<lparr>TxHash = TxHash_of (txObjs st ! p), Outputs = os, Actions = as,
               TxRest = TxRest_of (txObjs st ! p)\<rparr>"
    by (auto simp: read_tx_def split: option.splits)
  let ?st1 = "st\<lparr>outputObjs := outputObjs st @ os\<rparr>"
  have as1: "read_all (read_action ?st1) (ActionPtrs (txObjs st ! p)) = Some as"
    by (rule read_all_mono [OF as]) (auto simp: read_action_def split: if_splits)
  show ?thesis
    using p tx Clone_outputs_lay [OF os] Clone_actions_lay [OF as1]
      read_all_length [OF os] read_all_length [OF as]
    by (simp add: Clone_tx_def lay_txs_def)
qed


lemma lay_txs_Cons: "lay_txs (lay_txs st [tx]) txs = lay_txs st (tx # txs)"
  by (simp add: lay_txs_def)

lemma unchanged_in_lay_txs: "unchanged_in st (lay_txs st txs)"
  by (simp add: unchanged_in_def lay_txs_def)

lemma lay_txs_txObjs_length: "length (txObjs (lay_txs st [tx])) = Suc (length (txObjs st))"
  by (simp add: lay_txs_def)

lemma Clone_txs_lay:
  "read_all (read_tx st) ps = Some txs \<Longrightarrow>
   Clone_txs st ps =
     Returns ([length (txObjs st) ..< length (txObjs st) + length ps], lay_txs st txs)"
proof (induction ps arbitrary: st txs)
  case Nil
  then show ?case by (simp add: lay_txs_def)
next
  case (Cons p ps)
  from read_all_ConsD [OF Cons.prems] obtain tx txs' where
    tx: "read_tx st p = Some tx" and
    txs': "read_all (read_tx st) ps = Some txs'" and
    txs: "txs = tx # txs'"
    by blast
  have "read_all (read_tx (lay_txs st [tx])) ps = Some txs'"
    by (rule read_all_mono [OF txs']) (rule read_tx_mono [OF unchanged_in_lay_txs])
  from Cons.IH [OF this] Clone_tx_lay [OF tx] txs show ?case
    by (simp add: lay_txs_Cons lay_txs_txObjs_length upt_conv_Cons del: upt_Suc)
qed

lemma Clone_lay:
  assumes "read_block st p = Some b"
  shows "Clone st p = Returns (length (blockObjs st), lay_block st b)"
proof -
  from assms have p: "p < length (blockObjs st)"
    by (simp add: read_block_def split: if_splits)
  from assms p obtain txs where
    txs: "read_all (read_tx st) (VtxPtrs (blockObjs st ! p)) = Some txs" and
    b: "b = \<lparr>Height = Height_of (blockObjs st ! p), Hash = Hash_of (blockObjs st ! p),
             PrevHash = PrevHash_of (blockObjs st ! p), Time = Time_of (blockObjs st ! p),
             Vtx = txs, BlockRest = BlockRest_of (blockObjs st ! p)\<rparr>"
    by (auto simp: read_block_def split: option.splits)
  show ?thesis
    using p b Clone_txs_lay [OF txs] read_all_length [OF txs]
    by (simp add: Clone_def lay_block_def lay_txs_def)
qed

subsection \<open>FilterSpammyBlock: reading what was laid out\<close>

lemma read_outputs_range:
  "outputObjs S = pre @ os @ post \<Longrightarrow>
   read_all (read_output S) [length pre ..< length pre + length os] = Some os"
proof (induction os arbitrary: pre)
  case Nil
  then show ?case by simp
next
  case (Cons x os)
  from Cons.prems have s: "outputObjs S = (pre @ [x]) @ os @ post" by simp
  have r: "read_output S (length pre) = Some x"
    using Cons.prems by (simp add: read_output_def)
  from Cons.IH [OF s] r show ?case
    by (simp add: upt_conv_Cons del: upt_Suc)
qed

lemma read_actions_range:
  "actionObjs S = pre @ as @ post \<Longrightarrow>
   read_all (read_action S) [length pre ..< length pre + length as] = Some as"
proof (induction as arbitrary: pre)
  case Nil
  then show ?case by simp
next
  case (Cons x as)
  from Cons.prems have s: "actionObjs S = (pre @ [x]) @ as @ post" by simp
  have r: "read_action S (length pre) = Some x"
    using Cons.prems by (simp add: read_action_def)
  from Cons.IH [OF s] r show ?case
    by (simp add: upt_conv_Cons del: upt_Suc)
qed

lemma read_txs_laid:
  "txObjs S = T0 @ tx_objects (length O0) (length A0) txs @ T1 \<Longrightarrow>
   outputObjs S = O0 @ concat (map Outputs txs) @ O1 \<Longrightarrow>
   actionObjs S = A0 @ concat (map Actions txs) @ A1 \<Longrightarrow>
   read_all (read_tx S) [length T0 ..< length T0 + length txs] = Some txs"
proof (induction txs arbitrary: T0 O0 A0)
  case Nil
  then show ?case by simp
next
  case (Cons tx txs)
  let ?obj = "\<lparr>TxHash_of = TxHash tx, OutputPtrs = [length O0 ..< length O0 + length (Outputs tx)],
      ActionPtrs = [length A0 ..< length A0 + length (Actions tx)], TxRest_of = TxRest tx\<rparr>"
  have t: "txObjs S = (T0 @ [?obj]) @
             tx_objects (length (O0 @ Outputs tx)) (length (A0 @ Actions tx)) txs @ T1"
    using Cons.prems(1) by simp
  have o: "outputObjs S = (O0 @ Outputs tx) @ concat (map Outputs txs) @ O1"
    using Cons.prems(2) by simp
  have a: "actionObjs S = (A0 @ Actions tx) @ concat (map Actions txs) @ A1"
    using Cons.prems(3) by simp
  have o1: "outputObjs S = O0 @ Outputs tx @ (concat (map Outputs txs) @ O1)"
    using Cons.prems(2) by simp
  have a1: "actionObjs S = A0 @ Actions tx @ (concat (map Actions txs) @ A1)"
    using Cons.prems(3) by simp
  have at: "txObjs S ! length T0 = ?obj" and lt: "length T0 < length (txObjs S)"
    using Cons.prems(1) by simp_all
  have r: "read_tx S (length T0) = Some tx"
    using at lt read_outputs_range [OF o1] read_actions_range [OF a1]
    by (simp add: read_tx_def)
  from Cons.IH [OF t o a] r show ?case
    by (simp add: upt_conv_Cons del: upt_Suc)
qed

lemma lay_block_shape:
  shows "txObjs (lay_block st b) =
     txObjs st @ tx_objects (length (outputObjs st)) (length (actionObjs st)) (Vtx b) @ []"
    and "outputObjs (lay_block st b) = outputObjs st @ concat (map Outputs (Vtx b)) @ []"
    and "actionObjs (lay_block st b) = actionObjs st @ concat (map Actions (Vtx b)) @ []"
  by (simp_all add: lay_block_def lay_txs_def)

lemma read_block_lay: "read_block (lay_block st b) (length (blockObjs st)) = Some b"
proof -
  have bo: "blockObjs (lay_block st b) ! length (blockObjs st) =
          \<lparr>Height_of = Height b, Hash_of = Hash b, PrevHash_of = PrevHash b, Time_of = Time b,
            VtxPtrs = [length (txObjs st) ..< length (txObjs st) + length (Vtx b)],
            BlockRest_of = BlockRest b\<rparr>"
    and lb: "length (blockObjs st) < length (blockObjs (lay_block st b))"
    by (simp_all add: lay_block_def)
  have "read_all (read_tx (lay_block st b))
          [length (txObjs st) ..< length (txObjs st) + length (Vtx b)] = Some (Vtx b)"
    by (rule read_txs_laid [OF lay_block_shape])
  with bo lb show ?thesis by (simp add: read_block_def)
qed

lemma unchanged_in_lay_block: "unchanged_in st (lay_block st b)"
  by (simp add: unchanged_in_def lay_block_def lay_txs_def)


subsection \<open>FilterSpammyBlock: clearing in place\<close>

lemma clear_outputs_at_range:
  "outputObjs S = pre @ os @ post \<Longrightarrow>
   clear_outputs_at S [length pre ..< length pre + length os] =
     Returns (S\<lparr>outputObjs := pre @ clear_outputs os @ post\<rparr>)"
proof (induction os arbitrary: pre S)
  case Nil
  then show ?case by simp
next
  case (Cons x os)
  let ?S1 = "S\<lparr>outputObjs := (outputObjs S)[length pre :=
                 (outputObjs S ! length pre)\<lparr>Ciphertext := [], Epk := []\<rparr>]\<rparr>"
  have s: "outputObjs ?S1 = (pre @ [x\<lparr>Ciphertext := [], Epk := []\<rparr>]) @ os @ post"
    using Cons.prems by simp
  have l: "length pre < length (outputObjs S)"
    using Cons.prems by simp
  from Cons.IH [OF s] l show ?case
    by (simp add: upt_conv_Cons del: upt_Suc)
qed

lemma clear_actions_at_range:
  "actionObjs S = pre @ as @ post \<Longrightarrow>
   clear_actions_at S [length pre ..< length pre + length as] =
     Returns (S\<lparr>actionObjs := pre @ clear_actions as @ post\<rparr>)"
proof (induction as arbitrary: pre S)
  case Nil
  then show ?case by simp
next
  case (Cons x as)
  let ?S1 = "S\<lparr>actionObjs := (actionObjs S)[length pre :=
                 (actionObjs S ! length pre)
                   \<lparr>ActionCiphertext := [], EphemeralKey := [], Nullifier := []\<rparr>]\<rparr>"
  have s: "actionObjs ?S1 =
             (pre @ [x\<lparr>ActionCiphertext := [], EphemeralKey := [], Nullifier := []\<rparr>]) @ as @ post"
    using Cons.prems by simp
  have l: "length pre < length (actionObjs S)"
    using Cons.prems by simp
  from Cons.IH [OF s] l show ?case
    by (simp add: upt_conv_Cons del: upt_Suc)
qed

lemma filter_vtx_at_laid:
  "txObjs S = T0 @ tx_objects (length O0) (length A0) txs @ T1 \<Longrightarrow>
   outputObjs S = O0 @ concat (map Outputs txs) @ O1 \<Longrightarrow>
   actionObjs S = A0 @ concat (map Actions txs) @ A1 \<Longrightarrow>
   filter_vtx_at thr S [length T0 ..< length T0 + length txs] =
     Returns (S\<lparr>outputObjs := O0 @ concat (map Outputs (filter_vtx thr txs)) @ O1,
                 actionObjs := A0 @ concat (map Actions (filter_vtx thr txs)) @ A1\<rparr>)"
proof (induction txs arbitrary: S T0 O0 A0)
  case Nil
  then show ?case by simp
next
  case (Cons tx txs)
  let ?obj = "\<lparr>TxHash_of = TxHash tx, OutputPtrs = [length O0 ..< length O0 + length (Outputs tx)],
      ActionPtrs = [length A0 ..< length A0 + length (Actions tx)], TxRest_of = TxRest tx\<rparr>"
  have at: "txObjs S ! length T0 = ?obj" and lt: "length T0 < length (txObjs S)"
    using Cons.prems(1) by simp_all
  have o1: "outputObjs S = O0 @ Outputs tx @ (concat (map Outputs txs) @ O1)"
    using Cons.prems(2) by simp
  have rng: "[length T0 ..< length T0 + length (tx # txs)] =
             length T0 # [length (T0 @ [?obj]) ..< length (T0 @ [?obj]) + length txs]"
    by (simp add: upt_conv_Cons del: upt_Suc)
  show ?case
  proof (cases "int (length (Outputs tx)) + int (length (Actions tx)) > thr")
    case True
    let ?S1 = "S\<lparr>outputObjs := O0 @ clear_outputs (Outputs tx) @ (concat (map Outputs txs) @ O1)\<rparr>"
    have c1: "clear_outputs_at S (OutputPtrs ?obj) = Returns ?S1"
      using clear_outputs_at_range [OF o1] by simp
    have a1: "actionObjs ?S1 = A0 @ Actions tx @ (concat (map Actions txs) @ A1)"
      using Cons.prems(3) by simp
    let ?S2 = "?S1\<lparr>actionObjs := A0 @ clear_actions (Actions tx) @ (concat (map Actions txs) @ A1)\<rparr>"
    have c2: "clear_actions_at ?S1 (ActionPtrs ?obj) = Returns ?S2"
      using clear_actions_at_range [OF a1] by simp
    have t: "txObjs ?S2 = (T0 @ [?obj]) @
             tx_objects (length (O0 @ clear_outputs (Outputs tx)))
               (length (A0 @ clear_actions (Actions tx))) txs @ T1"
      using Cons.prems(1) by (simp add: clear_outputs_length clear_actions_length)
    have o: "outputObjs ?S2 = (O0 @ clear_outputs (Outputs tx)) @ concat (map Outputs txs) @ O1"
      by simp
    have a: "actionObjs ?S2 = (A0 @ clear_actions (Actions tx)) @ concat (map Actions txs) @ A1"
      by simp
    have step: "filter_vtx_at thr S (length T0 # [length (T0 @ [?obj]) ..< length (T0 @ [?obj]) + length txs]) =
                filter_vtx_at thr ?S2 [length (T0 @ [?obj]) ..< length (T0 @ [?obj]) + length txs]"
      using True at lt c1 c2 by (simp del: upt_Suc)
    show ?thesis
      unfolding rng step Cons.IH [OF t o a]
      using True by simp
  next
    case False
    have t: "txObjs S = (T0 @ [?obj]) @
             tx_objects (length (O0 @ Outputs tx)) (length (A0 @ Actions tx)) txs @ T1"
      using Cons.prems(1) by simp
    have o: "outputObjs S = (O0 @ Outputs tx) @ concat (map Outputs txs) @ O1"
      using Cons.prems(2) by simp
    have a: "actionObjs S = (A0 @ Actions tx) @ concat (map Actions txs) @ A1"
      using Cons.prems(3) by simp
    have step: "filter_vtx_at thr S (length T0 # [length (T0 @ [?obj]) ..< length (T0 @ [?obj]) + length txs]) =
                filter_vtx_at thr S [length (T0 @ [?obj]) ..< length (T0 @ [?obj]) + length txs]"
      using False at lt by (simp del: upt_Suc)
    show ?thesis
      unfolding rng step Cons.IH [OF t o a]
      using False by simp
  qed
qed


lemma tx_objects_filter_vtx: "tx_objects no na (filter_vtx thr txs) = tx_objects no na txs"
  by (induction txs arbitrary: no na) (simp_all add: clear_outputs_length clear_actions_length)

lemma FilterSpammyBlock_at_lay:
  assumes "read_block st p = Some b" and "thr \<noteq> 0"
  shows "FilterSpammyBlock_at st p thr =
           Returns (length (blockObjs st), lay_block st (FilterSpammyBlock b thr))"
proof -
  let ?S = "lay_block st b"
  have nb: "length (blockObjs st) < length (blockObjs ?S)"
    and ptrs: "VtxPtrs (blockObjs ?S ! length (blockObjs st)) =
               [length (txObjs st) ..< length (txObjs st) + length (Vtx b)]"
    by (simp_all add: lay_block_def)
  have same: "?S\<lparr>outputObjs := outputObjs st @ concat (map Outputs (filter_vtx thr (Vtx b))) @ [],
                 actionObjs := actionObjs st @ concat (map Actions (filter_vtx thr (Vtx b))) @ []\<rparr> =
              lay_block st (FilterSpammyBlock b thr)"
    using assms(2)
    by (simp add: lay_block_def lay_txs_def FilterSpammyBlock_def tx_objects_filter_vtx
        filter_vtx_length)
  show ?thesis
    using assms(2) Clone_lay [OF assms(1)] nb ptrs filter_vtx_at_laid [where thr = thr, OF lay_block_shape [of st b]] same
    by (simp add: FilterSpammyBlock_at_def del: upt_Suc)
qed

lemma FilterSpammyBlock_value:
  assumes "t \<noteq> 0"
  shows "Height (FilterSpammyBlock b t) = Height b \<and>
      Hash (FilterSpammyBlock b t) = Hash b \<and>
      PrevHash (FilterSpammyBlock b t) = PrevHash b \<and>
      Time (FilterSpammyBlock b t) = Time b \<and>
      BlockRest (FilterSpammyBlock b t) = BlockRest b \<and>
      length (Vtx (FilterSpammyBlock b t)) = length (Vtx b) \<and>
      (\<forall>i < length (Vtx b).
         (int (length (Outputs (Vtx b ! i))) + int (length (Actions (Vtx b ! i))) \<le> t \<longrightarrow>
            Vtx (FilterSpammyBlock b t) ! i = Vtx b ! i) \<and>
         (int (length (Outputs (Vtx b ! i))) + int (length (Actions (Vtx b ! i))) > t \<longrightarrow>
            TxHash (Vtx (FilterSpammyBlock b t) ! i) = TxHash (Vtx b ! i) \<and>
            TxRest (Vtx (FilterSpammyBlock b t) ! i) = TxRest (Vtx b ! i) \<and>
            length (Outputs (Vtx (FilterSpammyBlock b t) ! i)) = length (Outputs (Vtx b ! i)) \<and>
            length (Actions (Vtx (FilterSpammyBlock b t) ! i)) = length (Actions (Vtx b ! i)) \<and>
            (\<forall>k < length (Outputs (Vtx b ! i)).
               Ciphertext (Outputs (Vtx (FilterSpammyBlock b t) ! i) ! k) = [] \<and>
               Epk (Outputs (Vtx (FilterSpammyBlock b t) ! i) ! k) = [] \<and>
               OutputRest (Outputs (Vtx (FilterSpammyBlock b t) ! i) ! k) =
                 OutputRest (Outputs (Vtx b ! i) ! k)) \<and>
            (\<forall>k < length (Actions (Vtx b ! i)).
               ActionCiphertext (Actions (Vtx (FilterSpammyBlock b t) ! i) ! k) = [] \<and>
               EphemeralKey (Actions (Vtx (FilterSpammyBlock b t) ! i) ! k) = [] \<and>
               Nullifier (Actions (Vtx (FilterSpammyBlock b t) ! i) ! k) = [] \<and>
               ActionRest (Actions (Vtx (FilterSpammyBlock b t) ! i) ! k) =
                 ActionRest (Actions (Vtx b ! i) ! k))))"
  using assms
  by (simp add: FilterSpammyBlock_def filter_vtx_length filter_vtx_nth clear_outputs_length
      clear_actions_length clear_outputs_nth clear_actions_nth)

text \<open>
  C7. For every block \<open>b\<close>, reached through the pointer \<open>p\<close>, and every threshold
  \<open>t\<close>. With \<open>t = 0\<close> the pointer returned is \<open>p\<close> itself and the store is as it
  was: the block is returned as it is, and nothing is copied. With \<open>t \<noteq> 0\<close> (so for
  every \<open>t > 0\<close>) the pointer returned is another one, to a block whose value is
  \<open>FilterSpammyBlock b t\<close>; every object that was in the store is in it unchanged, and
  \<open>p\<close> still reads as \<open>b\<close>: the input is not mutated. In that value the fields of the
  block and the number of transactions are those of \<open>b\<close>; a transaction whose outputs
  and actions together are at most \<open>t\<close> (exactly \<open>t\<close> included) is equal to the
  transaction of \<open>b\<close>; a transaction with more than \<open>t\<close> (from \<open>t + 1\<close> on) has its
  id and the numbers of its outputs and actions as they were, every output with an empty
  ciphertext and ephemeral key, every action with an empty ciphertext, ephemeral key and
  nullifier, and the rest of each output and action as it was.
\<close>

theorem FilterSpammyBlock_spec:
  assumes "read_block st p = Some b"
  shows "FilterSpammyBlock_at st p 0 = Returns (p, st) \<and>
    FilterSpammyBlock b 0 = b \<and>
    (t \<noteq> 0 \<longrightarrow>
      (\<exists>p' st'. FilterSpammyBlock_at st p t = Returns (p', st') \<and>
          p' \<noteq> p \<and>
          read_block st' p' = Some (FilterSpammyBlock b t) \<and>
          unchanged_in st st' \<and>
          read_block st' p = Some b) \<and>
      Height (FilterSpammyBlock b t) = Height b \<and>
      Hash (FilterSpammyBlock b t) = Hash b \<and>
      PrevHash (FilterSpammyBlock b t) = PrevHash b \<and>
      Time (FilterSpammyBlock b t) = Time b \<and>
      BlockRest (FilterSpammyBlock b t) = BlockRest b \<and>
      length (Vtx (FilterSpammyBlock b t)) = length (Vtx b) \<and>
      (\<forall>i < length (Vtx b).
         (int (length (Outputs (Vtx b ! i))) + int (length (Actions (Vtx b ! i))) \<le> t \<longrightarrow>
            Vtx (FilterSpammyBlock b t) ! i = Vtx b ! i) \<and>
         (int (length (Outputs (Vtx b ! i))) + int (length (Actions (Vtx b ! i))) > t \<longrightarrow>
            TxHash (Vtx (FilterSpammyBlock b t) ! i) = TxHash (Vtx b ! i) \<and>
            TxRest (Vtx (FilterSpammyBlock b t) ! i) = TxRest (Vtx b ! i) \<and>
            length (Outputs (Vtx (FilterSpammyBlock b t) ! i)) = length (Outputs (Vtx b ! i)) \<and>
            length (Actions (Vtx (FilterSpammyBlock b t) ! i)) = length (Actions (Vtx b ! i)) \<and>
            (\<forall>k < length (Outputs (Vtx b ! i)).
               Ciphertext (Outputs (Vtx (FilterSpammyBlock b t) ! i) ! k) = [] \<and>
               Epk (Outputs (Vtx (FilterSpammyBlock b t) ! i) ! k) = [] \<and>
               OutputRest (Outputs (Vtx (FilterSpammyBlock b t) ! i) ! k) =
                 OutputRest (Outputs (Vtx b ! i) ! k)) \<and>
            (\<forall>k < length (Actions (Vtx b ! i)).
               ActionCiphertext (Actions (Vtx (FilterSpammyBlock b t) ! i) ! k) = [] \<and>
               EphemeralKey (Actions (Vtx (FilterSpammyBlock b t) ! i) ! k) = [] \<and>
               Nullifier (Actions (Vtx (FilterSpammyBlock b t) ! i) ! k) = [] \<and>
               ActionRest (Actions (Vtx (FilterSpammyBlock b t) ! i) ! k) =
                 ActionRest (Actions (Vtx b ! i) ! k)))))"
proof -
  have zero: "FilterSpammyBlock_at st p 0 = Returns (p, st)" "FilterSpammyBlock b 0 = b"
    by (simp_all add: FilterSpammyBlock_at_def FilterSpammyBlock_def)
  have store: "\<exists>p' st'. FilterSpammyBlock_at st p t = Returns (p', st') \<and>
          p' \<noteq> p \<and>
          read_block st' p' = Some (FilterSpammyBlock b t) \<and>
          unchanged_in st st' \<and>
          read_block st' p = Some b" if t: "t \<noteq> 0"
  proof -
    let ?st' = "lay_block st (FilterSpammyBlock b t)"
    from assms have p: "p < length (blockObjs st)"
      by (simp add: read_block_def split: if_splits)
    have "FilterSpammyBlock_at st p t = Returns (length (blockObjs st), ?st')"
      by (rule FilterSpammyBlock_at_lay [OF assms t])
    moreover have "length (blockObjs st) \<noteq> p" using p by simp
    moreover have "read_block ?st' (length (blockObjs st)) = Some (FilterSpammyBlock b t)"
      by (rule read_block_lay)
    moreover have u: "unchanged_in st ?st'" by (rule unchanged_in_lay_block)
    moreover have "read_block ?st' p = Some b" by (rule read_block_mono [OF u assms])
    ultimately show ?thesis by blast
  qed
  from zero store FilterSpammyBlock_value [of t b] show ?thesis by blast
qed

theorem FilterSpammyBlock_spec_witness:
  "read_block store0 0 = Some block0 \<and>
   FilterSpammyBlock_at store0 0 0 = Returns (0, store0) \<and>
   FilterSpammyBlock block0 0 = block0 \<and>
   FilterSpammyBlock block0 2 =
     \<lparr>Height = 7, Hash = [7], PrevHash = [6], Time = 100,
      Vtx = [\<lparr>TxHash = [10], Outputs = [output0 1], Actions = [action0 1], TxRest = [11]\<rparr>,
             \<lparr>TxHash = [20],
              Outputs = [(output0 2)\<lparr>Ciphertext := [], Epk := []\<rparr>,
                         (output0 3)\<lparr>Ciphertext := [], Epk := []\<rparr>],
              Actions = [(action0 2)\<lparr>ActionCiphertext := [], EphemeralKey := [], Nullifier := []\<rparr>],
              TxRest = [21]\<rparr>],
      BlockRest = [9]\<rparr> \<and>
   (case FilterSpammyBlock_at store0 0 2 of
      Panics m \<Rightarrow> False
    | Returns (p', st') \<Rightarrow>
        p' = 1 \<and>
        read_block st' 1 = Some (FilterSpammyBlock block0 2) \<and>
        read_block st' 0 = Some block0 \<and>
        unchanged_in store0 st')"
proof -
  have a: "read_block store0 0 = Some block0" by code_simp
  have b: "FilterSpammyBlock block0 2 =
     \<lparr>Height = 7, Hash = [7], PrevHash = [6], Time = 100,
      Vtx = [\<lparr>TxHash = [10], Outputs = [output0 1], Actions = [action0 1], TxRest = [11]\<rparr>,
             \<lparr>TxHash = [20],
              Outputs = [(output0 2)\<lparr>Ciphertext := [], Epk := []\<rparr>,
                         (output0 3)\<lparr>Ciphertext := [], Epk := []\<rparr>],
              Actions = [(action0 2)\<lparr>ActionCiphertext := [], EphemeralKey := [], Nullifier := []\<rparr>],
              TxRest = [21]\<rparr>],
      BlockRest = [9]\<rparr>"
    by code_simp
  have c: "(case FilterSpammyBlock_at store0 0 2 of
      Panics m \<Rightarrow> False
    | Returns (p', st') \<Rightarrow>
        p' = 1 \<and>
        read_block st' 1 = Some (FilterSpammyBlock block0 2) \<and>
        read_block st' 0 = Some block0 \<and>
        unchanged_in store0 st')"
    by code_simp
  note z = FilterSpammyBlock_spec [OF a, of 2]
  from a b c z [THEN conjunct1] z [THEN conjunct2, THEN conjunct1] show ?thesis
    by (intro conjI)
qed

end
